theory Spec2Isabelle
  imports Complex_Main "HOL-Library.Char_ord" "HOL-Library.List_Lexorder"
begin

section \<open>Python values used by tracker/reports.py\<close>

text \<open>
  The report generator works on dictionaries read from the record store. A key of such a
  dictionary can be absent, hold \<open>None\<close>, or hold a value; \<open>d.get(k)\<close>,
  \<open>d.get(k, default)\<close> and \<open>d[k]\<close> tell the three apart, so the model does too.
  Exceptions are values of \<open>error\<close>; a function that can raise returns
  \<open>error + 'a\<close> with \<open>Inl\<close> for the exception.
\<close>

datatype error = KeyError | ValueError | TypeError | IndexError | BackendError string

datatype 'a field = Missing | PyNone | Present 'a

text \<open>A naive \<open>datetime.datetime\<close> (no time zone, no microseconds).\<close>

record datetime =
  dt_year :: nat
  dt_month :: nat
  dt_day :: nat
  dt_hour :: nat
  dt_minute :: nat
  dt_second :: nat

text \<open>
  A time stamp arrives as an integer epoch, as a string or as a datetime object
  (\<open>isinstance(ts, int)\<close>, \<open>isinstance(start, datetime)\<close>, \<open>str(ts)\<close>).
\<close>

datatype pyval = PInt int | PStr string | PDatetime datetime

subsection \<open>Decimal text of integers: \<open>str(n)\<close> and f-string fields\<close>

function str_nat :: "nat \<Rightarrow> string" where
  "str_nat n =
     (if n < 10 then [''0123456789'' ! n]
      else str_nat (n div 10) @ [''0123456789'' ! (n mod 10)])"
  by pat_completeness auto
termination
  by (relation "measure id") auto

declare str_nat.simps [simp del]

definition str_int :: "int \<Rightarrow> string" where
  "str_int i = (if i < 0 then CHR ''-'' # str_nat (nat (- i)) else str_nat (nat i))"

definition zfill :: "nat \<Rightarrow> string \<Rightarrow> string" where
  "zfill w s = replicate (w - length s) CHR ''0'' @ s"

subsection \<open>The proleptic Gregorian calendar of the datetime module\<close>

definition is_leap :: "nat \<Rightarrow> bool" where
  "is_leap y = (y mod 4 = 0 \<and> (y mod 100 \<noteq> 0 \<or> y mod 400 = 0))"

definition days_in_month :: "nat \<Rightarrow> nat \<Rightarrow> nat" where
  "days_in_month y m =
     (if m = 2 then (if is_leap y then 29 else 28)
      else if m = 4 \<or> m = 6 \<or> m = 9 \<or> m = 11 then 30 else 31)"

definition days_before_year :: "nat \<Rightarrow> int" where
  "days_before_year y =
     (let p = int y - 1 in p * 365 + p div 4 - p div 100 + p div 400)"

definition days_before_month :: "nat \<Rightarrow> nat \<Rightarrow> int" where
  "days_before_month y m =
     int ([0, 31, 59, 90, 120, 151, 181, 212, 243, 273, 304, 334] ! (m - 1))
       + (if m > 2 \<and> is_leap y then 1 else 0)"

definition toordinal :: "datetime \<Rightarrow> int" where
  "toordinal d =
     days_before_year (dt_year d) + days_before_month (dt_year d) (dt_month d)
       + int (dt_day d)"



text \<open>\<open>_ord2ymd\<close> of the datetime module: the date of a day number.\<close>

definition ord2ymd :: "int \<Rightarrow> nat \<times> nat \<times> nat" where
  "ord2ymd n0 =
     (let n = n0 - 1;
          n400 = n div 146097; n = n mod 146097;
          n100 = n div 36524; n = n mod 36524;
          n4 = n div 1461; n = n mod 1461;
          n1 = n div 365; n = n mod 365;
          yr = n400 * 400 + 1 + n100 * 100 + n4 * 4 + n1
      in if n1 = 4 \<or> n100 = 4 then (nat (yr - 1), 12, 31)
         else
           let leapyear = (n1 = 3 \<and> (n4 \<noteq> 24 \<or> n100 = 3));
               y = nat yr;
               m = nat ((n + 50) div 32);
               preceding = days_before_month 1 m + (if m > 2 \<and> leapyear then 1 else 0)
           in if preceding > n
              then (let m' = m - 1;
                        preceding' = preceding
                          - (int (days_in_month 1 m') + (if m' = 2 \<and> leapyear then 1 else 0))
                    in (y, m', nat (n - preceding' + 1)))
              else (y, m, nat (n - preceding + 1)))"

text \<open>
  \<open>datetime.fromtimestamp(ts)\<close>: local time. The local zone is a parameter, the offset
  from UTC in seconds at each instant. Day 719163 is 1970-01-01.
\<close>

definition fromtimestamp :: "(int \<Rightarrow> int) \<Rightarrow> int \<Rightarrow> error + datetime" where
  "fromtimestamp utcoffset ts =
     (let t = ts + utcoffset ts; n = t div 86400 + 719163; r = t mod 86400
      in if n < 1 \<or> n > 3652059 then Inl ValueError
         else (case ord2ymd n of (y, m, d) \<Rightarrow>
           Inr \<lparr>dt_year = y, dt_month = m, dt_day = d, dt_hour = nat (r div 3600),
                dt_minute = nat ((r mod 3600) div 60), dt_second = nat (r mod 60)\<rparr>))"

subsection \<open>\<open>datetime.fromisoformat\<close>\<close>

text \<open>
  The model reads \<open>YYYY-MM-DD\<close>, alone or followed by one separator character and
  \<open>HH\<close>, \<open>HH:MM\<close> or \<open>HH:MM:SS\<close>, and checks the ranges of the fields as the
  datetime constructor does. Every other string is a \<open>ValueError\<close>: fractional seconds
  and UTC offsets, which Python also reads, are outside the model.
\<close>

definition digit_val :: "char \<Rightarrow> nat option" where
  "digit_val c =
     map_of [(CHR ''0'', 0), (CHR ''1'', 1), (CHR ''2'', 2), (CHR ''3'', 3), (CHR ''4'', 4),
             (CHR ''5'', 5), (CHR ''6'', 6), (CHR ''7'', 7), (CHR ''8'', 8), (CHR ''9'', 9)] c"

fun parse_digits :: "string \<Rightarrow> nat \<Rightarrow> nat option" where
  "parse_digits [] acc = Some acc"
| "parse_digits (c # cs) acc =
     (case digit_val c of None \<Rightarrow> None | Some d \<Rightarrow> parse_digits cs (10 * acc + d))"

definition parse_date :: "string \<Rightarrow> error + nat \<times> nat \<times> nat" where
  "parse_date s =
     (if length s \<noteq> 10 \<or> s ! 4 \<noteq> CHR ''-'' \<or> s ! 7 \<noteq> CHR ''-'' then Inl ValueError
      else (case (parse_digits (take 4 s) 0, parse_digits (take 2 (drop 5 s)) 0,
                  parse_digits (drop 8 s) 0) of
              (Some y, Some m, Some d) \<Rightarrow>
                if 1 \<le> y \<and> 1 \<le> m \<and> m \<le> 12 \<and> 1 \<le> d \<and> d \<le> days_in_month y m
                then Inr (y, m, d) else Inl ValueError
            | _ \<Rightarrow> Inl ValueError))"

definition parse_time :: "string \<Rightarrow> error + nat \<times> nat \<times> nat" where
  "parse_time s =
     (let ok = (length s = 2 \<or> (length s = 5 \<and> s ! 2 = CHR '':'')
                \<or> (length s = 8 \<and> s ! 2 = CHR '':'' \<and> s ! 5 = CHR '':''))
      in if \<not> ok then Inl ValueError
         else (case (parse_digits (take 2 s) 0, parse_digits (take 2 (drop 3 s)) 0,
                     parse_digits (take 2 (drop 6 s)) 0) of
                 (Some h, Some mi, Some sec) \<Rightarrow>
                   if h < 24 \<and> mi < 60 \<and> sec < 60 then Inr (h, mi, sec) else Inl ValueError
               | _ \<Rightarrow> Inl ValueError))"

definition fromisoformat :: "string \<Rightarrow> error + datetime" where
  "fromisoformat s =
     (case parse_date (take 10 s) of
        Inl e \<Rightarrow> Inl e
      | Inr (y, m, d) \<Rightarrow>
          if length s = 10
          then Inr \<lparr>dt_year = y, dt_month = m, dt_day = d, dt_hour = 0, dt_minute = 0,
                    dt_second = 0\<rparr>
          else (case parse_time (drop 11 s) of
                  Inl e \<Rightarrow> Inl e
                | Inr (h, mi, sec) \<Rightarrow>
                    Inr \<lparr>dt_year = y, dt_month = m, dt_day = d, dt_hour = h, dt_minute = mi,
                         dt_second = sec\<rparr>))"

text \<open>\<open>str(d)\<close> of a datetime is \<open>d.isoformat(sep=' ')\<close>; \<open>strftime('%Y-%m-%d')\<close> is its
  date part (the year written with four digits).\<close>

definition strftime_date :: "datetime \<Rightarrow> string" where
  "strftime_date d =
     zfill 4 (str_nat (dt_year d)) @ ''-'' @ zfill 2 (str_nat (dt_month d)) @ ''-''
       @ zfill 2 (str_nat (dt_day d))"

definition str_datetime :: "datetime \<Rightarrow> string" where
  "str_datetime d =
     strftime_date d @ '' '' @ zfill 2 (str_nat (dt_hour d)) @ '':''
       @ zfill 2 (str_nat (dt_minute d)) @ '':'' @ zfill 2 (str_nat (dt_second d))"

fun py_str :: "pyval \<Rightarrow> string" where
  "py_str (PInt i) = str_int i"
| "py_str (PStr s) = s"
| "py_str (PDatetime d) = str_datetime d"

text \<open>\<open>strftime('%A')\<close>: day 1 of the calendar is a Monday.\<close>

definition weekday_name :: "datetime \<Rightarrow> string" where
  "weekday_name d =
     [''Monday'', ''Tuesday'', ''Wednesday'', ''Thursday'', ''Friday'', ''Saturday'',
      ''Sunday''] ! nat ((toordinal d + 6) mod 7)"

section \<open>Records of the store\<close>

datatype id_list = NativeIds "int list" | EncodedIds string


section \<open>\<open>_summary_duration_seconds\<close>\<close>








section \<open>Results that can fail, dictionaries\<close>

text \<open>A loop over a list whose body can raise stops at the first exception.\<close>

fun map_result :: "('a \<Rightarrow> error + 'b) \<Rightarrow> 'a list \<Rightarrow> error + 'b list" where
  "map_result f [] = Inr []"
| "map_result f (x # xs) =
     (case f x of
        Inl e \<Rightarrow> Inl e
      | Inr y \<Rightarrow> (case map_result f xs of Inl e \<Rightarrow> Inl e | Inr ys \<Rightarrow> Inr (y # ys)))"

text \<open>
  A Python \<open>dict\<close> keeps its keys in insertion order, and the code depends on that order
  (\<open>sorted\<close> is stable, \<open>max\<close> returns the first maximum). A dictionary is a list of
  key-value pairs with distinct keys: \<open>d.get(k, default)\<close> is \<open>dict_get\<close>, and
  \<open>d[k] = v\<close> is \<open>dict_set\<close>, which keeps the place of a key that is already there and
  puts a new key last.
\<close>

fun dict_get :: "('k \<times> 'v) list \<Rightarrow> 'k \<Rightarrow> 'v \<Rightarrow> 'v" where
  "dict_get [] k dflt = dflt"
| "dict_get ((k', v) # kvs) k dflt = (if k' = k then v else dict_get kvs k dflt)"

fun dict_set :: "('k \<times> 'v) list \<Rightarrow> 'k \<Rightarrow> 'v \<Rightarrow> ('k \<times> 'v) list" where
  "dict_set [] k v = [(k, v)]"
| "dict_set ((k', v') # kvs) k v =
     (if k' = k then (k, v) # kvs else (k', v') # dict_set kvs k v)"

section \<open>\<open>_generate_project_sections\<close>: the order of the projects\<close>



text \<open>The loop \<open>for x in xs: d[key(x)] = d.get(key(x), 0) + inc\<close>, over the keys.\<close>

fun tally :: "('k \<times> 'v::comm_monoid_add) list \<Rightarrow> 'k list \<Rightarrow> 'v \<Rightarrow> ('k \<times> 'v) list" where
  "tally d [] inc = d"
| "tally d (k # ks) inc = tally (dict_set d k (dict_get d k 0 + inc)) ks inc"

text \<open>The same loop when computing the key can raise: the loop stops there.\<close>

fun tally_by ::
  "('a \<Rightarrow> error + 'k) \<Rightarrow> 'v::comm_monoid_add \<Rightarrow> ('k \<times> 'v) list \<Rightarrow> 'a list
     \<Rightarrow> error + ('k \<times> 'v) list" where
  "tally_by key inc d [] = Inr d"
| "tally_by key inc d (x # xs) =
     (case key x of
        Inl e \<Rightarrow> Inl e
      | Inr k \<Rightarrow> tally_by key inc (dict_set d k (dict_get d k 0 + inc)) xs)"

text \<open>\<open>max(items, key=lambda x: x[1])\<close>: the first item whose value is largest; a
  \<open>ValueError\<close> on an empty sequence.\<close>

fun first_max :: "'k \<times> 'v::linorder \<Rightarrow> ('k \<times> 'v) list \<Rightarrow> 'k \<times> 'v" where
  "first_max best [] = best"
| "first_max best (x # xs) = first_max (if snd best < snd x then x else best) xs"

definition py_max :: "('k \<times> 'v::linorder) list \<Rightarrow> error + 'k \<times> 'v" where
  "py_max items = (case items of [] \<Rightarrow> Inl ValueError | x # xs \<Rightarrow> Inr (first_max x xs))"

text \<open>The keys of a dictionary filled by such a loop, in the order of their first
  occurrence (used to state the order of the keys; not part of the source).\<close>

fun first_seen :: "'k list \<Rightarrow> 'k list \<Rightarrow> 'k list" where
  "first_seen seen [] = seen"
| "first_seen seen (k # ks) = first_seen (if k \<in> set seen then seen else seen @ [k]) ks"

section \<open>Numbers\<close>




section \<open>Screenshots, sessions and the analytics\<close>

record screenshot =
  ss_id :: int
  timestamp :: "pyval field"
  app_name :: "string field"
  window_title :: "string field"


record app_entry =
  ae_name :: string
  ae_minutes :: int
  ae_percentage :: rat

record window_entry =
  we_title :: string
  we_minutes :: int

record day_entry =
  de_date :: string
  de_minutes :: int

record report_analytics =
  total_active_minutes :: int
  total_sessions :: nat
  top_apps :: "app_entry list"
  top_windows :: "window_entry list"
  activity_by_hour :: "int list"
  activity_by_day :: "day_entry list"
  busiest_period :: string




text \<open>
  The time of a screenshot: \<open>ts = ss['timestamp']\<close>, then
  \<open>datetime.fromtimestamp(ts)\<close> for an integer and
  \<open>datetime.fromisoformat(str(ts))\<close> otherwise.
\<close>

definition read_timestamp :: "(int \<Rightarrow> int) \<Rightarrow> screenshot \<Rightarrow> error + datetime" where
  "read_timestamp utcoffset ss =
     (case timestamp ss of
        Missing \<Rightarrow> Inl KeyError
      | PyNone \<Rightarrow> fromisoformat ''None''
      | Present (PInt i) \<Rightarrow> fromtimestamp utcoffset i
      | Present v \<Rightarrow> fromisoformat (py_str v))"



subsection \<open>\<open>_find_busiest_period\<close>\<close>

definition period_of :: "datetime \<Rightarrow> string" where
  "period_of dt =
     weekday_name dt @ '' '' @
       (if dt_hour dt < 12 then ''morning''
        else if dt_hour dt < 17 then ''afternoon'' else ''evening'')"

definition period_key :: "(int \<Rightarrow> int) \<Rightarrow> screenshot \<Rightarrow> error + string" where
  "period_key utcoffset ss =
     (case read_timestamp utcoffset ss of Inl e \<Rightarrow> Inl e | Inr dt \<Rightarrow> Inr (period_of dt))"

definition find_busiest_period :: "(int \<Rightarrow> int) \<Rightarrow> screenshot list \<Rightarrow> error + string" where
  "find_busiest_period utcoffset screenshots =
     (if screenshots = [] then Inr ''No activity''
      else (case tally_by (period_key utcoffset) (1::int) [] screenshots of
              Inl e \<Rightarrow> Inl e
            | Inr period_counts \<Rightarrow>
                if period_counts = [] then Inr ''No activity''
                else (case py_max period_counts of
                        Inl e \<Rightarrow> Inl e
                      | Inr busiest \<Rightarrow> Inr (fst busiest))))"

subsection \<open>\<open>_compute_analytics\<close>\<close>







section \<open>Example inputs\<close>




text \<open>Four screenshots: Tuesday morning, Monday afternoon twice, Tuesday morning again.\<close>

definition tie_shots :: "screenshot list" where
  "tie_shots =
     [\<lparr>ss_id = 1, timestamp = Present (PStr ''2024-01-02T09:00:00''), app_name = Present ''a'',
       window_title = Missing\<rparr>,
      \<lparr>ss_id = 2, timestamp = Present (PStr ''2024-01-01T13:00:00''), app_name = Present ''b'',
       window_title = Missing\<rparr>,
      \<lparr>ss_id = 3, timestamp = Present (PStr ''2024-01-01T16:59:59''), app_name = Present ''b'',
       window_title = Missing\<rparr>,
      \<lparr>ss_id = 4, timestamp = Present (PStr ''2024-01-02T11:59:59''), app_name = Present ''a'',
       window_title = Missing\<rparr>]"

definition tie_times :: "datetime list" where
  "tie_times =
     [\<lparr>dt_year = 2024, dt_month = 1, dt_day = 2, dt_hour = 9, dt_minute = 0, dt_second = 0\<rparr>,
      \<lparr>dt_year = 2024, dt_month = 1, dt_day = 1, dt_hour = 13, dt_minute = 0, dt_second = 0\<rparr>,
      \<lparr>dt_year = 2024, dt_month = 1, dt_day = 1, dt_hour = 16, dt_minute = 59,
       dt_second = 59\<rparr>,
      \<lparr>dt_year = 2024, dt_month = 1, dt_day = 2, dt_hour = 11, dt_minute = 59,
       dt_second = 59\<rparr>]"





definition percentage_total :: "report_analytics \<Rightarrow> rat" where
  "percentage_total a = sum_list (map ae_percentage (top_apps a))"

definition top_minutes_total :: "report_analytics \<Rightarrow> int" where
  "top_minutes_total a = sum_list (map ae_minutes (top_apps a))"

text \<open>Six screenshots of one minute, each of another application.\<close>

definition six_apps :: "screenshot list" where
  "six_apps =
     map (\<lambda>(i, app). \<lparr>ss_id = i, timestamp = Present (PStr ''2024-01-01T09:00:00''),
                       app_name = Present app, window_title = Missing\<rparr>)
       [(1, ''Editor''), (2, ''Terminal''), (3, ''Browser''), (4, ''Mail''), (5, ''Chat''),
        (6, ''Files'')]"

definition six_times :: "datetime list" where
  "six_times =
     replicate 6 \<lparr>dt_year = 2024, dt_month = 1, dt_day = 1, dt_hour = 9, dt_minute = 0,
                  dt_second = 0\<rparr>"

section \<open>Properties\<close>

subsection \<open>Durations of summaries\<close>






subsection \<open>The calendar: later datetimes have larger second counts\<close>
















subsection \<open>Negative durations\<close>



subsection \<open>Loops that can fail\<close>

lemma map_result_length: "map_result f xs = Inr ys \<Longrightarrow> length ys = length xs"
  by (induction xs arbitrary: ys) (auto split: sum.splits)

lemma map_result_Inr: "map_result (\<lambda>x. Inr (f x)) xs = Inr (map f xs)"
  by (induction xs) auto

lemma tally_by_map_result:
  "tally_by key inc d xs =
     (case map_result key xs of Inl e \<Rightarrow> Inl e | Inr ks \<Rightarrow> Inr (tally d ks inc))"
  by (induction xs arbitrary: d) (auto split: sum.splits)

lemma map_result_key:
  "map_result f xs = Inr ys \<Longrightarrow>
   map_result (\<lambda>x. case f x of Inl e \<Rightarrow> Inl e | Inr y \<Rightarrow> Inr (g y)) xs = Inr (map g ys)"
  by (induction xs arbitrary: ys) (auto split: sum.splits)

subsection \<open>Dictionaries\<close>

lemma dict_set_keys:
  "map fst (dict_set d k v) = (if k \<in> set (map fst d) then map fst d else map fst d @ [k])"
  by (induction d) force+

lemma dict_get_set:
  "dict_get (dict_set d k v) k' dflt = (if k' = k then v else dict_get d k' dflt)"
  by (induction d) auto

lemma dict_get_mem:
  "distinct (map fst d) \<Longrightarrow> (k, v) \<in> set d \<Longrightarrow> dict_get d k dflt = v"
  by (induction d) (auto simp: rev_image_eqI)



lemma dict_get_tally:
  fixes d :: "('k \<times> 'v::comm_semiring_1) list"
  shows "dict_get (tally d ks inc) k 0 = dict_get d k 0 + of_nat (count_list ks k) * inc"
proof (induction ks arbitrary: d)
  case Nil
  show ?case by simp
next
  case (Cons k0 ks)
  have "dict_get (tally d (k0 # ks) inc) k 0
      = dict_get (dict_set d k0 (dict_get d k0 0 + inc)) k 0 + of_nat (count_list ks k) * inc"
    by (simp add: Cons.IH)
  also have "\<dots> = (if k = k0 then dict_get d k0 0 + inc else dict_get d k 0)
      + of_nat (count_list ks k) * inc"
    by (simp only: dict_get_set)
  finally show ?case by (auto simp: algebra_simps)
qed

lemma distinct_dict_set: "distinct (map fst d) \<Longrightarrow> distinct (map fst (dict_set d k v))"
  by (simp add: dict_set_keys)

lemma distinct_tally: "distinct (map fst d) \<Longrightarrow> distinct (map fst (tally d ks inc))"
  by (induction ks arbitrary: d) (simp_all add: distinct_dict_set)

lemma set_dict_set_keys: "set (map fst (dict_set d k v)) = insert k (set (map fst d))"
  by (auto simp: dict_set_keys)

lemma set_tally_keys: "set (map fst (tally d ks inc)) = set (map fst d) \<union> set ks"
  by (induction ks arbitrary: d) (simp_all add: set_dict_set_keys del: set_map)


subsection \<open>Time stamps\<close>




subsection \<open>The analytics return when every time stamp reads\<close>

lemma tally_by_ok:
  "map_result f xs = Inr ys \<Longrightarrow>
   tally_by (\<lambda>x. case f x of Inl e \<Rightarrow> Inl e | Inr y \<Rightarrow> Inr (g y)) inc d xs
     = Inr (tally d (map g ys) inc)"
  by (simp add: tally_by_map_result map_result_key)

lemma first_max_mem: "first_max x xs \<in> set (x # xs)"
  by (induction xs arbitrary: x) auto








subsection \<open>The busiest period\<close>

lemma tally_keys_first_seen: "map fst (tally d ks inc) = first_seen (map fst d) ks"
  by (induction ks arbitrary: d) (simp_all add: dict_set_keys)

lemma first_seen_prefix: "\<exists>rest. first_seen seen ks = seen @ rest"
proof (induction ks arbitrary: seen)
  case Nil
  show ?case by simp
next
  case (Cons k ks)
  from Cons [of "if k \<in> set seen then seen else seen @ [k]"]
  show ?case by (auto split: if_splits)
qed

lemma prefix_before:
  assumes "seen @ rest = A @ k # B" and "k \<notin> set seen"
  shows "set seen \<subseteq> set A"
proof -
  from assms(1) obtain us where
    "(seen = A @ us \<and> us @ rest = k # B) \<or> (seen @ us = A \<and> rest = us @ k # B)"
    by (auto simp: append_eq_append_conv2)
  then show ?thesis
  proof
    assume h: "seen = A @ us \<and> us @ rest = k # B"
    show ?thesis
    proof (cases us)
      case Nil
      with h show ?thesis by simp
    next
      case (Cons u us')
      with h have "u = k" by simp
      with h Cons assms(2) show ?thesis by simp
    qed
  next
    assume "seen @ us = A \<and> rest = us @ k # B"
    then show ?thesis by auto
  qed
qed

lemma first_seen_split:
  "first_seen seen ks = A @ k # B \<Longrightarrow> k \<notin> set seen \<Longrightarrow>
   \<exists>pre post. ks = pre @ k # post \<and> k \<notin> set pre \<and> set pre \<subseteq> set A \<and> set seen \<subseteq> set A"
proof (induction ks arbitrary: seen)
  case Nil
  then show ?case by auto
next
  case (Cons k0 ks)
  let ?seen = "if k0 \<in> set seen then seen else seen @ [k0]"
  from Cons.prems(1) have fs: "first_seen ?seen ks = A @ k # B" by simp
  show ?case
  proof (cases "k0 = k")
    case True
    with Cons.prems(2) fs have "first_seen (seen @ [k]) ks = A @ k # B" by simp
    moreover obtain rest where "first_seen (seen @ [k]) ks = (seen @ [k]) @ rest"
      using first_seen_prefix by blast
    ultimately have "seen @ (k # rest) = A @ k # B" by simp
    from prefix_before [OF this Cons.prems(2)] have "set seen \<subseteq> set A" .
    with True show ?thesis by (intro exI [of _ "[]"] exI [of _ ks]) simp
  next
    case False
    with Cons.prems(2) have "k \<notin> set ?seen" by simp
    from Cons.IH [OF fs this] obtain pre post where
      p: "ks = pre @ k # post" "k \<notin> set pre" "set pre \<subseteq> set A" "set ?seen \<subseteq> set A"
      by blast
    from p(4) have "k0 \<in> set A" "set seen \<subseteq> set A" by (auto split: if_splits)
    with p False show ?thesis
      by (intro exI [of _ "k0 # pre"] exI [of _ post]) simp
  qed
qed

lemma first_max_ge: "snd best \<le> snd (first_max best xs)"
proof (induction xs arbitrary: best)
  case Nil
  show ?case by simp
next
  case (Cons y ys)
  from Cons [of "if snd best < snd y then y else best"]
  show ?case by (auto split: if_splits)
qed

lemma first_max_split:
  "first_max best xs = (k, v) \<Longrightarrow>
   \<exists>A B. best # xs = A @ (k, v) # B \<and> (\<forall>p\<in>set A. snd p < v) \<and> (\<forall>p\<in>set B. snd p \<le> v)"
proof (induction xs arbitrary: best)
  case Nil
  then show ?case by (intro exI [of _ "[]"]) simp
next
  case (Cons y ys)
  show ?case
  proof (cases "snd best < snd y")
    case True
    with Cons.prems have fm: "first_max y ys = (k, v)" by simp
    from Cons.IH [OF fm] obtain A B where
      ab: "y # ys = A @ (k, v) # B" "\<forall>p\<in>set A. snd p < v" "\<forall>p\<in>set B. snd p \<le> v"
      by blast
    from first_max_ge [of y ys] fm have "snd y \<le> v" by simp
    with True have "snd best < v" by simp
    with ab show ?thesis
      by (intro exI [of _ "best # A"] exI [of _ B]) simp
  next
    case False
    with Cons.prems have fm: "first_max best ys = (k, v)" by simp
    from Cons.IH [OF fm] obtain A B where
      ab: "best # ys = A @ (k, v) # B" "\<forall>p\<in>set A. snd p < v" "\<forall>p\<in>set B. snd p \<le> v"
      by blast
    show ?thesis
    proof (cases A)
      case Nil
      with ab have "best = (k, v)" "ys = B" by simp_all
      with False ab(3) show ?thesis
        by (intro exI [of _ "[]"] exI [of _ "y # ys"]) auto
    next
      case (Cons a A')
      with ab have e: "a = best" "ys = A' @ (k, v) # B" by simp_all
      with ab(2) Cons have "snd best < v" by simp
      with False have "snd y < v" by simp
      with e ab Cons show ?thesis
        by (intro exI [of _ "best # y # A'"] exI [of _ B]) simp
    qed
  qed
qed

lemma tally_value:
  fixes inc :: "'v::comm_semiring_1"
  assumes "(k, v) \<in> set (tally [] ks inc)"
  shows "v = of_nat (count_list ks k) * inc"
proof -
  have "distinct (map fst (tally [] ks inc))" by (rule distinct_tally) simp
  from dict_get_mem [OF this assms, of 0] dict_get_tally [of "[]" ks inc k]
  show ?thesis by simp
qed

lemma busiest_key:
  assumes ks: "ks \<noteq> []"
  shows "\<exists>k pre post. py_max (tally [] ks (1::int)) = Inr (k, int (count_list ks k))
     \<and> ks = pre @ k # post \<and> k \<notin> set pre
     \<and> (\<forall>k'\<in>set pre. count_list ks k' < count_list ks k)
     \<and> (\<forall>k'\<in>set ks. count_list ks k' \<le> count_list ks k)"
proof -
  let ?items = "tally [] ks (1::int)"
  have "set (map fst ?items) = set ks" by (simp add: set_tally_keys del: set_map)
  with ks have "?items \<noteq> []" by auto
  then obtain x xs where items: "?items = x # xs" by (cases ?items) auto
  obtain k v where kv: "first_max x xs = (k, v)" by (cases "first_max x xs")
  from first_max_split [OF kv] items obtain A B where
    ab: "?items = A @ (k, v) # B" "\<forall>p\<in>set A. snd p < v" "\<forall>p\<in>set B. snd p \<le> v"
    by auto
  have val: "\<And>k' v'. (k', v') \<in> set ?items \<Longrightarrow> v' = int (count_list ks k')"
    using tally_value [of _ _ ks "1::int"] by simp
  have v: "v = int (count_list ks k)" using val [of k v] ab(1) by simp
  have "first_seen [] ks = map fst A @ k # map fst B"
    using tally_keys_first_seen [of "[]" ks "1::int"] ab(1) by simp
  from first_seen_split [OF this] obtain pre post where
    p: "ks = pre @ k # post" "k \<notin> set pre" "set pre \<subseteq> set (map fst A)"
    by auto
  have lt: "\<forall>k'\<in>set pre. count_list ks k' < count_list ks k"
  proof
    fix k' assume "k' \<in> set pre"
    with p(3) obtain v' where m: "(k', v') \<in> set A" by auto
    with ab(2) have "v' < v" by auto
    moreover from m ab(1) have "v' = int (count_list ks k')" by (intro val) simp
    ultimately show "count_list ks k' < count_list ks k" using v by simp
  qed
  have le: "\<forall>k'\<in>set ks. count_list ks k' \<le> count_list ks k"
  proof
    fix k' assume "k' \<in> set ks"
    then have "k' \<in> set (map fst ?items)" by (simp add: set_tally_keys del: set_map)
    then obtain v' where m: "(k', v') \<in> set ?items" by auto
    then have v': "v' = int (count_list ks k')" by (rule val)
    from m ab have "v' \<le> v" by (auto simp: less_imp_le)
    with v v' show "count_list ks k' \<le> count_list ks k" by simp
  qed
  have "py_max ?items = Inr (k, int (count_list ks k))"
    using items kv v by (simp add: py_max_def)
  with p(1,2) lt le show ?thesis by blast
qed

text \<open>
  Claim C8. On an empty list \<open>_find_busiest_period\<close> returns \<open>No activity\<close>. On a
  non-empty list whose time stamps read, it returns a key \<open><Weekday> <period>\<close> of one of
  the screenshots such that no key occurs more often, and every key met before its first
  occurrence occurs strictly less often: among the keys with the highest count it is the
  first one met. The period is \<open>morning\<close> for an hour below 12, \<open>afternoon\<close> from 12 to
  16, and \<open>evening\<close> from 17.
\<close>

theorem find_busiest_period_first_max:
  "find_busiest_period off [] = Inr ''No activity''
   \<and> (screenshots \<noteq> [] \<and> map_result (read_timestamp off) screenshots = Inr dts \<longrightarrow>
       (\<exists>k pre post. find_busiest_period off screenshots = Inr k
          \<and> map period_of dts = pre @ k # post \<and> k \<notin> set pre
          \<and> (\<forall>k'\<in>set pre.
                count_list (map period_of dts) k' < count_list (map period_of dts) k)
          \<and> (\<forall>k'\<in>set (map period_of dts).
                count_list (map period_of dts) k' \<le> count_list (map period_of dts) k)))
   \<and> (\<forall>dt. period_of dt =
         weekday_name dt @ '' '' @
           (if dt_hour dt < 12 then ''morning''
            else if 12 \<le> dt_hour dt \<and> dt_hour dt < 17 then ''afternoon''
            else ''evening''))"
proof (intro conjI impI allI)
  show "find_busiest_period off [] = Inr ''No activity''"
    by (simp add: find_busiest_period_def)
next
  assume h: "screenshots \<noteq> [] \<and> map_result (read_timestamp off) screenshots = Inr dts"
  let ?ks = "map period_of dts"
  from h have len: "length dts = length screenshots" by (auto dest: map_result_length)
  with h have ne: "?ks \<noteq> []" by auto
  from h have t: "tally_by (period_key off) (1::int) [] screenshots = Inr (tally [] ?ks 1)"
    unfolding period_key_def by (intro tally_by_ok) simp
  from busiest_key [OF ne] obtain k pre post where
    b: "py_max (tally [] ?ks (1::int)) = Inr (k, int (count_list ?ks k))"
       "?ks = pre @ k # post" "k \<notin> set pre"
       "\<forall>k'\<in>set pre. count_list ?ks k' < count_list ?ks k"
       "\<forall>k'\<in>set ?ks. count_list ?ks k' \<le> count_list ?ks k"
    by blast
  from b(1) have "tally [] ?ks (1::int) \<noteq> []" by (auto simp: py_max_def)
  with h t b(1) have "find_busiest_period off screenshots = Inr k"
    by (simp add: find_busiest_period_def)
  with b(2-5) show "\<exists>k pre post. find_busiest_period off screenshots = Inr k
          \<and> ?ks = pre @ k # post \<and> k \<notin> set pre
          \<and> (\<forall>k'\<in>set pre. count_list ?ks k' < count_list ?ks k)
          \<and> (\<forall>k'\<in>set ?ks. count_list ?ks k' \<le> count_list ?ks k)"
    by blast
next
  fix dt
  show "period_of dt =
         weekday_name dt @ '' '' @
           (if dt_hour dt < 12 then ''morning''
            else if 12 \<le> dt_hour dt \<and> dt_hour dt < 17 then ''afternoon''
            else ''evening'')"
    by (simp add: period_of_def)
qed

text \<open>The theorem at the four example screenshots: Tuesday morning and Monday afternoon
  both occur twice, and Tuesday morning, met first, is returned.\<close>

lemma tie_shots_times: "map_result (read_timestamp (\<lambda>t. 0)) tie_shots = Inr tie_times"
  by code_simp

lemma tie_shots_busiest: "find_busiest_period (\<lambda>t. 0) tie_shots = Inr ''Tuesday morning''"
  by code_simp

theorem find_busiest_period_first_max_witness:
  "(\<exists>k pre post. find_busiest_period (\<lambda>t. 0) tie_shots = Inr k
      \<and> map period_of tie_times = pre @ k # post \<and> k \<notin> set pre
      \<and> (\<forall>k'\<in>set pre.
            count_list (map period_of tie_times) k' < count_list (map period_of tie_times) k)
      \<and> (\<forall>k'\<in>set (map period_of tie_times).
            count_list (map period_of tie_times) k' \<le> count_list (map period_of tie_times) k))
   \<and> find_busiest_period (\<lambda>t. 0) tie_shots = Inr ''Tuesday morning''
   \<and> map period_of tie_times
       = [''Tuesday morning'', ''Monday afternoon'', ''Monday afternoon'', ''Tuesday morning'']"
proof -
  have ne: "tie_shots \<noteq> []" by (simp add: tie_shots_def)
  have ks: "map period_of tie_times
       = [''Tuesday morning'', ''Monday afternoon'', ''Monday afternoon'', ''Tuesday morning'']"
    by code_simp
  from find_busiest_period_first_max
         [of "\<lambda>t. 0" tie_shots tie_times, THEN conjunct2, THEN conjunct1, rule_format,
          OF conjI, OF ne tie_shots_times]
       tie_shots_busiest ks
  show ?thesis by (intro conjI)
qed

subsection \<open>Truncation of the buckets\<close>












subsection \<open>The hour and day histograms\<close>





end
